theory Spec2Isabelle
  imports Main "HOL-Library.Sublist"
begin

section \<open>The model download script\<close>

text \<open>
  The repository is one script, \<^verbatim>\<open>download-model.py\<close>, whose \<^verbatim>\<open>main\<close> creates the
  directory \<^verbatim>\<open>models\<close>, asks two libraries for a model and a tokenizer, has them saved
  into the directory, renames the exported file to \<^verbatim>\<open>model.onnx\<close> when it has another
  name, and prints a report. The embedding keeps the statements of \<^verbatim>\<open>main\<close> in their
  order. What the script changes is the path \<^verbatim>\<open>models\<close> of the file system, so the
  state is that one node; what the libraries answer is not in the script, so it is a
  parameter (\<open>world\<close>); an exception that nothing catches ends the run and is kept in
  the state (\<open>raised\<close>).
\<close>

subsection \<open>Constants and paths\<close>

definition MODEL_NAME :: string where
  "MODEL_NAME = ''sentence-transformers/all-MiniLM-L6-v2''"

definition OUTPUT_DIR :: string where
  "OUTPUT_DIR = ''models''"

text \<open>\<^verbatim>\<open>OUTPUT_DIR / name\<close>, as the text an f-string prints for it (POSIX separator).\<close>

definition path_join :: "string \<Rightarrow> string \<Rightarrow> string" where
  "path_join d name = d @ ''/'' @ name"

subsection \<open>The file system at \<^verbatim>\<open>models\<close>\<close>

text \<open>
  The path is missing, a regular file, or a directory. A directory is the list of its
  entry names in the order a scan of it yields them, which is the order \<^verbatim>\<open>glob\<close>
  follows. \<^verbatim>\<open>exists\<close>, \<^verbatim>\<open>glob\<close> and \<^verbatim>\<open>rename\<close> do not ask what kind of entry a
  name is, so an entry is its name.
\<close>

datatype node = Absent | RegularFile | Directory "string list"

datatype error =
    FileExistsError
  | FileNotFoundError
  | NotADirectoryError
  | ExternalError string

fun listing :: "node \<Rightarrow> string list" where
  "listing Absent = []"
| "listing RegularFile = []"
| "listing (Directory d) = d"

fun is_dir :: "node \<Rightarrow> bool" where
  "is_dir (Directory d) = True"
| "is_dir n = False"

text \<open>
  \<^verbatim>\<open>Path.mkdir(exist_ok=...)\<close> without \<^verbatim>\<open>parents\<close>: the directory is made when the
  path is free; when the path is taken, the error is swallowed only if \<^verbatim>\<open>exist_ok\<close> is
  set and the path is a directory.
\<close>

definition mkdir :: "bool \<Rightarrow> node \<Rightarrow> error + node" where
  "mkdir exist_ok n =
     (case n of
        Absent \<Rightarrow> Inr (Directory [])
      | Directory d \<Rightarrow> if exist_ok then Inr (Directory d) else Inl FileExistsError
      | RegularFile \<Rightarrow> Inl FileExistsError)"

text \<open>\<^verbatim>\<open>(OUTPUT_DIR / name).exists()\<close>: false too when \<^verbatim>\<open>models\<close> is no directory.\<close>

definition path_exists :: "node \<Rightarrow> string \<Rightarrow> bool" where
  "path_exists n name = (name \<in> set (listing n))"

text \<open>
  The pattern \<^verbatim>\<open>*.onnx\<close>: the star stands for any text, the empty one and a leading
  dot included, and the rest is literal, so a name matches when it ends in \<^verbatim>\<open>.onnx\<close>.
\<close>

definition matches_onnx :: "string \<Rightarrow> bool" where
  "matches_onnx name =
     (length ''.onnx'' \<le> length name \<and>
      drop (length name - length ''.onnx'') name = ''.onnx'')"

text \<open>\<^verbatim>\<open>OUTPUT_DIR.glob("*.onnx")\<close>: the matching entries in scan order; none when
  \<^verbatim>\<open>models\<close> is no directory.\<close>

definition glob_onnx :: "node \<Rightarrow> string list" where
  "glob_onnx n = filter matches_onnx (listing n)"

text \<open>
  \<^verbatim>\<open>os.rename\<close> inside one directory: the source entry must be there, an entry that
  has the target's name is replaced, and the source takes the target's name.
\<close>

definition os_rename :: "string \<Rightarrow> string \<Rightarrow> string list \<Rightarrow> error + string list" where
  "os_rename src dst d =
     (if src \<notin> set d then Inl FileNotFoundError
      else if src = dst then Inr d
      else Inr (map (\<lambda>n. if n = src then dst else n) (filter (\<lambda>n. n \<noteq> dst) d)))"

text \<open>Writing a file creates its entry, or keeps the entry when the name is there.\<close>

definition write_file :: "string \<Rightarrow> string list \<Rightarrow> string list" where
  "write_file name d = (if name \<in> set d then d else d @ [name])"

definition write_files :: "string list \<Rightarrow> string list \<Rightarrow> string list" where
  "write_files names d = fold write_file names d"

subsection \<open>The libraries\<close>

text \<open>
  The four library calls of \<^verbatim>\<open>main\<close>. The two \<^verbatim>\<open>from_pretrained\<close> calls are given
  the model name only, not the output directory: each returns a handle or raises. The
  two \<^verbatim>\<open>save_pretrained\<close> calls are given the output directory: each writes the files
  it names there, and may raise after them.
\<close>

record world =
  model_from_pretrained :: "error option"
  tokenizer_from_pretrained :: "error option"
  model_save_pretrained :: "string list \<times> error option"
  tokenizer_save_pretrained :: "string list \<times> error option"

subsection \<open>Runs\<close>

text \<open>
  The effects of \<^verbatim>\<open>main\<close>, one event for each call that prints, reads or changes
  something outside the script. The trace of a run pairs every event with the node
  \<^verbatim>\<open>models\<close> as it is when the call begins.
\<close>

datatype event =
    EvPrint string
  | EvMkdir
  | EvExportModel
  | EvDownloadTokenizer
  | EvSaveModel
  | EvExists
  | EvGlob
  | EvRename string string
  | EvSaveTokenizer

record run =
  fs :: node
  trace :: "(event \<times> node) list"
  raised :: "error option"

definition emit :: "event \<Rightarrow> run \<Rightarrow> run" where
  "emit e r = r\<lparr>trace := trace r @ [(e, fs r)]\<rparr>"

definition raise :: "error \<Rightarrow> run \<Rightarrow> run" where
  "raise e r = r\<lparr>raised := Some e\<rparr>"

definition print_step :: "string \<Rightarrow> run \<Rightarrow> run" where
  "print_step s r = emit (EvPrint s) r"

text \<open>\<^verbatim>\<open>OUTPUT_DIR.mkdir(exist_ok=True)\<close>\<close>

definition mkdir_step :: "run \<Rightarrow> run" where
  "mkdir_step r =
     (let r1 = emit EvMkdir r in
      case mkdir True (fs r1) of
        Inl e \<Rightarrow> raise e r1
      | Inr n \<Rightarrow> r1\<lparr>fs := n\<rparr>)"

text \<open>\<^verbatim>\<open>model = ORTModelForFeatureExtraction.from_pretrained(MODEL_NAME, export=True)\<close>\<close>

definition export_step :: "world \<Rightarrow> run \<Rightarrow> run" where
  "export_step w r =
     (let r1 = emit EvExportModel r in
      case model_from_pretrained w of
        Some e \<Rightarrow> raise e r1
      | None \<Rightarrow> r1)"

text \<open>\<^verbatim>\<open>tokenizer = AutoTokenizer.from_pretrained(MODEL_NAME)\<close>\<close>

definition download_tokenizer_step :: "world \<Rightarrow> run \<Rightarrow> run" where
  "download_tokenizer_step w r =
     (let r1 = emit EvDownloadTokenizer r in
      case tokenizer_from_pretrained w of
        Some e \<Rightarrow> raise e r1
      | None \<Rightarrow> r1)"

text \<open>
  A \<^verbatim>\<open>save_pretrained(OUTPUT_DIR)\<close> call: files are written into a directory that is
  there; a file cannot be written below a missing path or below a regular file.
\<close>

definition save_step :: "event \<Rightarrow> string list \<times> error option \<Rightarrow> run \<Rightarrow> run" where
  "save_step ev answer r =
     (let r1 = emit ev r in
      case fs r1 of
        Absent \<Rightarrow> raise FileNotFoundError r1
      | RegularFile \<Rightarrow> raise NotADirectoryError r1
      | Directory d \<Rightarrow>
          (let r2 = r1\<lparr>fs := Directory (write_files (fst answer) d)\<rparr> in
           case snd answer of
             Some e \<Rightarrow> raise e r2
           | None \<Rightarrow> r2))"

text \<open>\<^verbatim>\<open>model.save_pretrained(OUTPUT_DIR)\<close>\<close>

definition save_model_step :: "world \<Rightarrow> run \<Rightarrow> run" where
  "save_model_step w r = save_step EvSaveModel (model_save_pretrained w) r"

text \<open>
  Lines 40 to 45:
  \<^verbatim>\<open>
  onnx_file = OUTPUT_DIR / "model.onnx"
  if not onnx_file.exists():
      for f in OUTPUT_DIR.glob("*.onnx"):
          f.rename(onnx_file)
          break
  \<close>
  The loop body ends in \<^verbatim>\<open>break\<close>, so it runs for the first match only.
\<close>

definition rename_step :: "run \<Rightarrow> run" where
  "rename_step r =
     (let onnx_file = ''model.onnx'';
          r1 = emit EvExists r in
      if path_exists (fs r1) onnx_file then r1
      else
        (let r2 = emit EvGlob r1 in
         case glob_onnx (fs r2) of
           [] \<Rightarrow> r2
         | f # rest \<Rightarrow>
             (let r3 = emit (EvRename f onnx_file) r2 in
              case os_rename f onnx_file (listing (fs r3)) of
                Inl e \<Rightarrow> raise e r3
              | Inr d \<Rightarrow> r3\<lparr>fs := Directory d\<rparr>)))"

text \<open>\<^verbatim>\<open>tokenizer.save_pretrained(OUTPUT_DIR)\<close>\<close>

definition save_tokenizer_step :: "world \<Rightarrow> run \<Rightarrow> run" where
  "save_tokenizer_step w r = save_step EvSaveTokenizer (tokenizer_save_pretrained w) r"

text \<open>Statements run one after the other until one raises.\<close>

definition sequence :: "(run \<Rightarrow> run) list \<Rightarrow> run \<Rightarrow> run" where
  "sequence steps r = fold (\<lambda>step r'. if raised r' = None then step r' else r') steps r"

text \<open>The printed texts; the check mark is the three bytes of its UTF-8 form.\<close>

definition msg_downloading :: string where
  "msg_downloading = ''Downloading '' @ MODEL_NAME @ ''...''"

definition msg_converting :: string where
  "msg_converting = ''Converting to ONNX format...''"

definition msg_tokenizer :: string where
  "msg_tokenizer = ''Downloading tokenizer...''"

definition msg_success :: string where
  "msg_success = [CHR 0x0A, CHR 0xE2, CHR 0x9C, CHR 0x85] @ '' Model downloaded successfully!''"

definition msg_model_path :: string where
  "msg_model_path = ''   Model: '' @ path_join OUTPUT_DIR ''model.onnx''"

definition msg_tokenizer_path :: string where
  "msg_tokenizer_path = ''   Tokenizer: '' @ path_join OUTPUT_DIR ''tokenizer.json''"

definition msg_cargo :: string where
  "msg_cargo = [CHR 0x0A] @ ''You can now run: cargo run''"

definition completion_messages :: "string list" where
  "completion_messages = [msg_success, msg_model_path, msg_tokenizer_path, msg_cargo]"

definition start :: "node \<Rightarrow> run" where
  "start n = \<lparr>fs = n, trace = [], raised = None\<rparr>"

definition main :: "world \<Rightarrow> node \<Rightarrow> run" where
  "main w n =
     sequence
       [print_step msg_downloading,
        mkdir_step,
        print_step msg_converting,
        export_step w,
        print_step msg_tokenizer,
        download_tokenizer_step w,
        save_model_step w,
        rename_step,
        save_tokenizer_step w,
        print_step msg_success,
        print_step msg_model_path,
        print_step msg_tokenizer_path,
        print_step msg_cargo]
       (start n)"

text \<open>What a run has done, without the nodes, and what it has printed.\<close>

definition events :: "run \<Rightarrow> event list" where
  "events r = map fst (trace r)"

fun printed_text :: "event \<Rightarrow> string option" where
  "printed_text (EvPrint s) = Some s"
| "printed_text e = None"

definition stdout :: "run \<Rightarrow> string list" where
  "stdout r = List.map_filter printed_text (events r)"

subsection \<open>The steps of a run\<close>

text \<open>
  The seven steps of \<^verbatim>\<open>main\<close>. An event belongs to the step that makes it; the
  three progress messages belong to none. The rename step is lines 40 to 45: the
  \<^verbatim>\<open>exists\<close> test, the \<^verbatim>\<open>glob\<close> and the \<^verbatim>\<open>rename\<close>.
\<close>

datatype step =
    CreateDirectory
  | ExportModel
  | DownloadTokenizer
  | SaveModel
  | RenameStep
  | SaveTokenizer
  | Report

fun step_of :: "event \<Rightarrow> step option" where
  "step_of (EvPrint s) = (if s \<in> set completion_messages then Some Report else None)"
| "step_of EvMkdir = Some CreateDirectory"
| "step_of EvExportModel = Some ExportModel"
| "step_of EvDownloadTokenizer = Some DownloadTokenizer"
| "step_of EvSaveModel = Some SaveModel"
| "step_of EvExists = Some RenameStep"
| "step_of EvGlob = Some RenameStep"
| "step_of (EvRename src dst) = Some RenameStep"
| "step_of EvSaveTokenizer = Some SaveTokenizer"

definition all_steps :: "step list" where
  "all_steps =
     [CreateDirectory, ExportModel, DownloadTokenizer, SaveModel, RenameStep,
      SaveTokenizer, Report]"

text \<open>The steps a run went through, each once however many events it made.\<close>

definition steps_of :: "run \<Rightarrow> step list" where
  "steps_of r = remdups_adj (List.map_filter step_of (events r))"

text \<open>The events of the three steps that write below \<^verbatim>\<open>models\<close>.\<close>

definition in_write_step :: "event \<Rightarrow> bool" where
  "in_write_step ev = (step_of ev \<in> {Some SaveModel, Some RenameStep, Some SaveTokenizer})"

text \<open>The four calls into the libraries.\<close>

definition library_calls :: "event list" where
  "library_calls = [EvExportModel, EvDownloadTokenizer, EvSaveModel, EvSaveTokenizer]"

text \<open>
  The entries of \<^verbatim>\<open>models\<close> after lines 40 to 45, from the entries before them
  (lemma \<open>fs_rename_step\<close> ties it to \<open>rename_step\<close>).
\<close>

definition renamed_listing :: "string list \<Rightarrow> string list" where
  "renamed_listing d =
     (if ''model.onnx'' \<in> set d then d
      else case filter matches_onnx d of
             [] \<Rightarrow> d
           | f # rest \<Rightarrow> map (\<lambda>n. if n = f then ''model.onnx'' else n) d)"

text \<open>
  The events lines 40 to 45 make when \<^verbatim>\<open>models\<close> is the node \<open>n\<close> (lemma
  \<open>rename_step_eq\<close> ties it to \<open>rename_step\<close>).
\<close>

definition rename_events :: "node \<Rightarrow> event list" where
  "rename_events n =
     (if path_exists n ''model.onnx'' then [EvExists]
      else case glob_onnx n of
             [] \<Rightarrow> [EvExists, EvGlob]
           | f # rest \<Rightarrow> [EvExists, EvGlob, EvRename f ''model.onnx''])"

text \<open>
  A sample of what the libraries answer, for running the model on concrete inputs: both
  downloads succeed, the model is saved as \<^verbatim>\<open>config.json\<close> and \<^verbatim>\<open>model.onnx\<close>, the
  tokenizer as \<^verbatim>\<open>tokenizer.json\<close> and \<^verbatim>\<open>vocab.txt\<close>.
\<close>

abbreviation usual_libraries :: world where
  "usual_libraries \<equiv>
     \<lparr>model_from_pretrained = None,
      tokenizer_from_pretrained = None,
      model_save_pretrained = ([''config.json'', ''model.onnx''], None),
      tokenizer_save_pretrained = ([''tokenizer.json'', ''vocab.txt''], None)\<rparr>"

section \<open>Properties\<close>

subsection \<open>Sequencing and the rename step\<close>

lemma sequence_raised [simp]: "raised r = Some e \<Longrightarrow> sequence ss r = r"
  by (induction ss) (simp_all add: sequence_def)

lemma sequence_Nil [simp]: "sequence [] r = r"
  by (simp add: sequence_def)

lemma sequence_Cons [simp]:
  "sequence (s # ss) r = (if raised r = None then sequence ss (s r) else r)"
proof (cases "raised r")
  case None
  then show ?thesis by (simp add: sequence_def)
next
  case (Some e)
  then show ?thesis by simp
qed

lemma glob_onnx_Cons_mem: "glob_onnx n = f # rest \<Longrightarrow> f \<in> set (listing n) \<and> matches_onnx f"
proof -
  assume "glob_onnx n = f # rest"
  then have "f \<in> set (filter matches_onnx (listing n))" by (simp add: glob_onnx_def)
  then show ?thesis by simp
qed

lemma filter_absent: "x \<notin> set d \<Longrightarrow> filter (\<lambda>n. n \<noteq> x) d = d"
  by (induction d) auto

lemma rename_step_unfold:
  "rename_step r =
     (if path_exists (fs r) ''model.onnx'' then emit EvExists r
      else case glob_onnx (fs r) of
             [] \<Rightarrow> emit EvGlob (emit EvExists r)
           | f # rest \<Rightarrow>
               (emit (EvRename f ''model.onnx'') (emit EvGlob (emit EvExists r)))
                 \<lparr>fs := Directory (map (\<lambda>n. if n = f then ''model.onnx'' else n) (listing (fs r)))\<rparr>)"
proof (cases "path_exists (fs r) ''model.onnx''")
  case True
  then show ?thesis by (simp add: rename_step_def emit_def Let_def)
next
  case False
  show ?thesis
  proof (cases "glob_onnx (fs r)")
    case Nil
    with False show ?thesis by (simp add: rename_step_def emit_def Let_def)
  next
    case (Cons f rest)
    from Cons have mem: "f \<in> set (listing (fs r))" by (simp add: glob_onnx_Cons_mem)
    from False have absent: "''model.onnx'' \<notin> set (listing (fs r))" by (simp add: path_exists_def)
    from mem absent have ne: "f \<noteq> ''model.onnx''" by auto
    from False Cons mem ne show ?thesis
      by (simp add: rename_step_def emit_def os_rename_def raise_def Let_def filter_absent [OF absent])
  qed
qed

lemma raised_rename_step [simp]: "raised (rename_step r) = raised r"
  by (simp add: rename_step_unfold emit_def split: list.splits)

lemma fs_rename_step:
  "is_dir (fs r) \<Longrightarrow> fs (rename_step r) = Directory (renamed_listing (listing (fs r)))"
  by (cases "fs r")
     (simp_all add: rename_step_unfold renamed_listing_def path_exists_def glob_onnx_def emit_def
        split: list.splits)

lemmas step_defs =
  print_step_def mkdir_step_def export_step_def download_tokenizer_step_def
  save_model_step_def save_tokenizer_step_def save_step_def emit_def raise_def mkdir_def Let_def


lemma in_write_step_simps [simp]:
  "in_write_step (EvPrint s) = False"
  "in_write_step EvMkdir = False"
  "in_write_step EvExportModel = False"
  "in_write_step EvDownloadTokenizer = False"
  "in_write_step EvSaveModel = True"
  "in_write_step EvExists = True"
  "in_write_step EvGlob = True"
  "in_write_step (EvRename a b) = True"
  "in_write_step EvSaveTokenizer = True"
  by (simp_all add: in_write_step_def)

subsection \<open>The six courses of a run\<close>

text \<open>
  A run ends at the directory creation, at one of the four library calls, or at the last
  message. In each case the final state is known in closed form.
\<close>

lemma rename_step_eq:
  "rename_step \<lparr>fs = Directory d, trace = t, raised = x\<rparr> =
     \<lparr>fs = Directory (renamed_listing d),
      trace = t @ map (\<lambda>e. (e, Directory d)) (rename_events (Directory d)),
      raised = x\<rparr>"
  by (simp add: rename_step_unfold rename_events_def renamed_listing_def path_exists_def
        glob_onnx_def emit_def split: list.splits)

lemma main_not_dir:
  "main w RegularFile =
     \<lparr>fs = RegularFile,
      trace = [(EvPrint msg_downloading, RegularFile), (EvMkdir, RegularFile)],
      raised = Some FileExistsError\<rparr>"
  by (simp add: main_def start_def step_defs)

lemma main_export_fails:
  assumes "n \<noteq> RegularFile" and "model_from_pretrained w = Some e"
  shows "main w n =
     \<lparr>fs = Directory (listing n),
      trace = [(EvPrint msg_downloading, n), (EvMkdir, n),
               (EvPrint msg_converting, Directory (listing n)),
               (EvExportModel, Directory (listing n))],
      raised = Some e\<rparr>"
  using assms by (cases n) (simp_all add: main_def start_def step_defs)

lemma main_download_fails:
  assumes "n \<noteq> RegularFile" and "model_from_pretrained w = None"
    and "tokenizer_from_pretrained w = Some e"
  shows "main w n =
     \<lparr>fs = Directory (listing n),
      trace = [(EvPrint msg_downloading, n), (EvMkdir, n),
               (EvPrint msg_converting, Directory (listing n)),
               (EvExportModel, Directory (listing n)),
               (EvPrint msg_tokenizer, Directory (listing n)),
               (EvDownloadTokenizer, Directory (listing n))],
      raised = Some e\<rparr>"
  using assms by (cases n) (simp_all add: main_def start_def step_defs)

lemma main_save_model_fails:
  assumes "n \<noteq> RegularFile" and "model_from_pretrained w = None"
    and "tokenizer_from_pretrained w = None"
    and "snd (model_save_pretrained w) = Some e"
  shows "main w n =
     \<lparr>fs = Directory (write_files (fst (model_save_pretrained w)) (listing n)),
      trace = [(EvPrint msg_downloading, n), (EvMkdir, n),
               (EvPrint msg_converting, Directory (listing n)),
               (EvExportModel, Directory (listing n)),
               (EvPrint msg_tokenizer, Directory (listing n)),
               (EvDownloadTokenizer, Directory (listing n)),
               (EvSaveModel, Directory (listing n))],
      raised = Some e\<rparr>"
  using assms by (cases n) (simp_all add: main_def start_def step_defs)

lemma main_save_tokenizer_fails:
  assumes "n \<noteq> RegularFile" and "model_from_pretrained w = None"
    and "tokenizer_from_pretrained w = None"
    and "snd (model_save_pretrained w) = None"
    and "snd (tokenizer_save_pretrained w) = Some e"
  shows "main w n =
     \<lparr>fs = Directory (write_files (fst (tokenizer_save_pretrained w))
             (renamed_listing (write_files (fst (model_save_pretrained w)) (listing n)))),
      trace = [(EvPrint msg_downloading, n), (EvMkdir, n),
               (EvPrint msg_converting, Directory (listing n)),
               (EvExportModel, Directory (listing n)),
               (EvPrint msg_tokenizer, Directory (listing n)),
               (EvDownloadTokenizer, Directory (listing n)),
               (EvSaveModel, Directory (listing n))]
              @ map (\<lambda>ev. (ev, Directory (write_files (fst (model_save_pretrained w)) (listing n))))
                  (rename_events (Directory (write_files (fst (model_save_pretrained w)) (listing n))))
              @ [(EvSaveTokenizer,
                  Directory (renamed_listing (write_files (fst (model_save_pretrained w)) (listing n))))],
      raised = Some e\<rparr>"
  using assms by (cases n) (simp_all add: main_def start_def step_defs rename_step_eq)

lemma main_succeeds:
  assumes "n \<noteq> RegularFile" and "model_from_pretrained w = None"
    and "tokenizer_from_pretrained w = None"
    and "snd (model_save_pretrained w) = None"
    and "snd (tokenizer_save_pretrained w) = None"
  shows "main w n =
     \<lparr>fs = Directory (write_files (fst (tokenizer_save_pretrained w))
             (renamed_listing (write_files (fst (model_save_pretrained w)) (listing n)))),
      trace = [(EvPrint msg_downloading, n), (EvMkdir, n),
               (EvPrint msg_converting, Directory (listing n)),
               (EvExportModel, Directory (listing n)),
               (EvPrint msg_tokenizer, Directory (listing n)),
               (EvDownloadTokenizer, Directory (listing n)),
               (EvSaveModel, Directory (listing n))]
              @ map (\<lambda>ev. (ev, Directory (write_files (fst (model_save_pretrained w)) (listing n))))
                  (rename_events (Directory (write_files (fst (model_save_pretrained w)) (listing n))))
              @ [(EvSaveTokenizer,
                  Directory (renamed_listing (write_files (fst (model_save_pretrained w)) (listing n))))]
              @ map (\<lambda>s. (EvPrint s,
                   Directory (write_files (fst (tokenizer_save_pretrained w))
                     (renamed_listing (write_files (fst (model_save_pretrained w)) (listing n))))))
                  completion_messages,
      raised = None\<rparr>"
  using assms
  by (cases n) (simp_all add: main_def start_def step_defs rename_step_eq completion_messages_def)

lemma run_cases [case_names not_dir export_fails download_fails save_model_fails
    save_tokenizer_fails succeeds]:
  obtains "n = RegularFile"
  | e where "n \<noteq> RegularFile" "model_from_pretrained w = Some e"
  | e where "n \<noteq> RegularFile" "model_from_pretrained w = None"
      "tokenizer_from_pretrained w = Some e"
  | e where "n \<noteq> RegularFile" "model_from_pretrained w = None"
      "tokenizer_from_pretrained w = None" "snd (model_save_pretrained w) = Some e"
  | e where "n \<noteq> RegularFile" "model_from_pretrained w = None"
      "tokenizer_from_pretrained w = None" "snd (model_save_pretrained w) = None"
      "snd (tokenizer_save_pretrained w) = Some e"
  | "n \<noteq> RegularFile" "model_from_pretrained w = None"
      "tokenizer_from_pretrained w = None" "snd (model_save_pretrained w) = None"
      "snd (tokenizer_save_pretrained w) = None"
  by (cases "model_from_pretrained w"; cases "tokenizer_from_pretrained w";
      cases "snd (model_save_pretrained w)"; cases "snd (tokenizer_save_pretrained w)";
      cases "n = RegularFile") auto

lemma main_succeeds_iff:
  "raised (main w n) = None \<longleftrightarrow>
     n \<noteq> RegularFile \<and> model_from_pretrained w = None \<and> tokenizer_from_pretrained w = None \<and>
     snd (model_save_pretrained w) = None \<and> snd (tokenizer_save_pretrained w) = None"
proof (cases rule: run_cases [where n = n and w = w])
  case not_dir
  then show ?thesis by (simp add: main_not_dir)
next
  case (export_fails e)
  then show ?thesis by (simp add: main_export_fails)
next
  case (download_fails e)
  then show ?thesis by (simp add: main_download_fails)
next
  case (save_model_fails e)
  then show ?thesis by (simp add: main_save_model_fails)
next
  case (save_tokenizer_fails e)
  then show ?thesis by (simp add: main_save_tokenizer_fails)
next
  case succeeds
  then show ?thesis by (simp add: main_succeeds)
qed

lemma completion_messages_step:
  "List.map_filter step_of (map EvPrint completion_messages) = [Report, Report, Report, Report]"
  by (simp add: completion_messages_def List.map_filter_simps)

lemma rename_events_steps:
  "List.map_filter step_of (rename_events x) \<in>
     {[RenameStep], [RenameStep, RenameStep], [RenameStep, RenameStep, RenameStep]}"
  by (simp add: rename_events_def List.map_filter_simps split: list.splits)

lemma rename_events_print_nothing [simp]:
  "List.map_filter printed_text (rename_events x) = []"
  by (simp add: rename_events_def List.map_filter_simps split: list.splits)

lemma rename_events_not_nil [simp]: "rename_events x \<noteq> []"
  by (simp add: rename_events_def split: list.splits)

lemma map_filter_append:
  "List.map_filter f (xs @ ys) = List.map_filter f xs @ List.map_filter f ys"
  by (simp add: List.map_filter_def)

lemma set_write_files [simp]: "set (write_files names d) = set names \<union> set d"
  unfolding write_files_def
  by (induction names arbitrary: d) (auto simp: write_file_def)

lemma filter_write_files:
  "\<forall>name\<in>set names. \<not> P name \<Longrightarrow> filter P (write_files names d) = filter P d"
  unfolding write_files_def
  by (induction names arbitrary: d) (auto simp: write_file_def)

lemma distinct_write_files: "distinct d \<Longrightarrow> distinct (write_files names d)"
  unfolding write_files_def
  by (induction names arbitrary: d) (auto simp: write_file_def)

lemma filter_rename_first:
  assumes "P m" and "P f"
  shows "filter P (map (\<lambda>n. if n = f then m else n) d) = map (\<lambda>n. if n = f then m else n) (filter P d)"
  using assms by (induction d) auto

lemma renamed_listing_no_match:
  "filter matches_onnx d = [] \<Longrightarrow> renamed_listing d = d"
  by (simp add: renamed_listing_def)

lemma matches_model_onnx [simp]: "matches_onnx ''model.onnx''"
  by (simp add: matches_onnx_def)

lemma filter_renamed_listing_single:
  assumes "filter matches_onnx d = [f]"
  shows "filter matches_onnx (renamed_listing d) = [''model.onnx'']"
proof (cases "''model.onnx'' \<in> set d")
  case True
  then have "''model.onnx'' \<in> set (filter matches_onnx d)" by simp
  with assms have "f = ''model.onnx''" by simp
  with assms True show ?thesis by (simp add: renamed_listing_def)
next
  case False
  from assms have "f \<in> set (filter matches_onnx d)" by simp
  then have pf: "matches_onnx f" by simp
  from False assms have "renamed_listing d = map (\<lambda>n. if n = f then ''model.onnx'' else n) d"
    by (simp add: renamed_listing_def)
  with assms pf show ?thesis by (simp add: filter_rename_first)
qed


lemma distinct_renamed_listing: "distinct d \<Longrightarrow> distinct (renamed_listing d)"
proof (cases "''model.onnx'' \<in> set d")
  case True
  assume "distinct d"
  with True show ?thesis by (simp add: renamed_listing_def)
next
  case False
  assume d: "distinct d"
  show ?thesis
  proof (cases "filter matches_onnx d")
    case Nil
    with d show ?thesis by (simp add: renamed_listing_def)
  next
    case (Cons f rest)
    from False have "inj_on (\<lambda>n. if n = f then ''model.onnx'' else n) (set d)"
      by (auto simp: inj_on_def)
    with d False Cons show ?thesis
      by (simp add: renamed_listing_def distinct_map)
  qed
qed

text \<open>A run keeps the entries of the directory free of duplicates.\<close>

lemma main_keeps_distinct:
  assumes "distinct (listing n)"
  shows "distinct (listing (fs (main w n)))"
proof (cases rule: run_cases [where n = n and w = w])
  case not_dir
  then show ?thesis by (simp add: main_not_dir)
next
  case (export_fails e)
  with assms show ?thesis by (simp add: main_export_fails)
next
  case (download_fails e)
  with assms show ?thesis by (simp add: main_download_fails)
next
  case (save_model_fails e)
  with assms show ?thesis by (simp add: main_save_model_fails distinct_write_files)
next
  case (save_tokenizer_fails e)
  with assms show ?thesis
    by (simp add: main_save_tokenizer_fails distinct_write_files distinct_renamed_listing)
next
  case succeeds
  with assms show ?thesis
    by (simp add: main_succeeds distinct_write_files distinct_renamed_listing)
qed

subsection \<open>Traces\<close>

lemma progress_not_completion [simp]:
  "msg_downloading \<notin> set completion_messages"
  "msg_converting \<notin> set completion_messages"
  "msg_tokenizer \<notin> set completion_messages"
  by (simp_all add: completion_messages_def msg_downloading_def msg_converting_def
        msg_tokenizer_def msg_success_def msg_model_path_def msg_tokenizer_path_def
        msg_cargo_def MODEL_NAME_def OUTPUT_DIR_def path_join_def)

lemma remdups_adj_rename_steps:
  assumes "xs \<in> {[RenameStep], [RenameStep, RenameStep], [RenameStep, RenameStep, RenameStep]}"
  shows "remdups_adj (pre @ [SaveModel] @ xs @ SaveTokenizer # post) =
         remdups_adj (pre @ [SaveModel]) @ RenameStep # remdups_adj (SaveTokenizer # post)"
proof -
  have "remdups_adj (pre @ [SaveModel] @ xs @ SaveTokenizer # post) =
        remdups_adj (pre @ [SaveModel]) @ tl (remdups_adj (SaveModel # xs @ SaveTokenizer # post))"
    by (simp add: remdups_adj_append [of pre SaveModel "xs @ SaveTokenizer # post"])
  also from assms have "tl (remdups_adj (SaveModel # xs @ SaveTokenizer # post)) =
        RenameStep # remdups_adj (SaveTokenizer # post)"
    by auto
  finally show ?thesis .
qed

lemma steps_of_events:
  "steps_of r = remdups_adj (List.map_filter step_of (map fst (trace r)))"
  by (simp add: steps_of_def events_def)

lemma main_trace_shape:
  "\<exists>rest. trace (main w n) = (EvPrint msg_downloading, n) # (EvMkdir, n) # rest \<and>
     (\<forall>p\<in>set rest. is_dir (snd p))"
proof (cases rule: run_cases [where n = n and w = w])
  case not_dir
  then show ?thesis by (simp add: main_not_dir)
next
  case (export_fails e)
  then show ?thesis by (simp add: main_export_fails)
next
  case (download_fails e)
  then show ?thesis by (simp add: main_download_fails)
next
  case (save_model_fails e)
  then show ?thesis by (simp add: main_save_model_fails)
next
  case (save_tokenizer_fails e)
  then show ?thesis by (auto simp: main_save_tokenizer_fails)
next
  case succeeds
  then show ?thesis by (auto simp: main_succeeds)
qed

lemma rename_events_no_library_call:
  "c \<in> set library_calls \<Longrightarrow> count_list (rename_events x) c = 0"
  by (auto simp: rename_events_def library_calls_def split: list.splits)

subsection \<open>A usual run\<close>

lemmas eval_defs =
  write_files_def write_file_def renamed_listing_def rename_events_def matches_onnx_def
  glob_onnx_def path_exists_def completion_messages_def events_def

lemma usual_run:
  "trace (main usual_libraries Absent) =
     [(EvPrint msg_downloading, Absent), (EvMkdir, Absent),
      (EvPrint msg_converting, Directory []), (EvExportModel, Directory []),
      (EvPrint msg_tokenizer, Directory []), (EvDownloadTokenizer, Directory []),
      (EvSaveModel, Directory []),
      (EvExists, Directory [''config.json'', ''model.onnx'']),
      (EvSaveTokenizer, Directory [''config.json'', ''model.onnx'']),
      (EvPrint msg_success, Directory [''config.json'', ''model.onnx'', ''tokenizer.json'', ''vocab.txt'']),
      (EvPrint msg_model_path, Directory [''config.json'', ''model.onnx'', ''tokenizer.json'', ''vocab.txt'']),
      (EvPrint msg_tokenizer_path, Directory [''config.json'', ''model.onnx'', ''tokenizer.json'', ''vocab.txt'']),
      (EvPrint msg_cargo, Directory [''config.json'', ''model.onnx'', ''tokenizer.json'', ''vocab.txt''])]"
  by (simp add: main_succeeds eval_defs)

section \<open>Claims\<close>



text \<open>
  C2, as amended. The claim as stated fails: the rename step renames the first match and
  stops, so when the model save leaves two \<^verbatim>\<open>.onnx\<close> files under other names, a
  successful run ends with \<^verbatim>\<open>model.onnx\<close> and a second \<^verbatim>\<open>.onnx\<close> file (the
  counterexample below). What holds: after a successful run in which the model save left
  exactly one entry ending in \<^verbatim>\<open>.onnx\<close> in the output directory and the tokenizer
  save writes no file of that ending, the only such entry is \<^verbatim>\<open>model.onnx\<close>, and the
  tokenizer files are in the directory.
\<close>

theorem single_export_leaves_one_onnx:
  assumes "raised (main w n) = None"
    and "length (filter matches_onnx (write_files (fst (model_save_pretrained w)) (listing n))) = 1"
    and "\<forall>name\<in>set (fst (tokenizer_save_pretrained w)). \<not> matches_onnx name"
  shows "glob_onnx (fs (main w n)) = [''model.onnx''] \<and>
         set (fst (tokenizer_save_pretrained w)) \<subseteq> set (listing (fs (main w n)))"
proof -
  let ?saved = "write_files (fst (model_save_pretrained w)) (listing n)"
  from assms(1) have ok: "n \<noteq> RegularFile" "model_from_pretrained w = None"
    "tokenizer_from_pretrained w = None" "snd (model_save_pretrained w) = None"
    "snd (tokenizer_save_pretrained w) = None"
    by (simp_all add: main_succeeds_iff)
  from assms(2) obtain f where "filter matches_onnx ?saved = [f]"
    by (cases "filter matches_onnx ?saved") auto
  then have "filter matches_onnx (renamed_listing ?saved) = [''model.onnx'']"
    by (rule filter_renamed_listing_single)
  with assms(3) have
    "filter matches_onnx (write_files (fst (tokenizer_save_pretrained w)) (renamed_listing ?saved)) =
       [''model.onnx'']"
    by (simp add: filter_write_files)
  then show ?thesis
    by (simp add: main_succeeds [OF ok] glob_onnx_def)
qed

theorem single_export_leaves_one_onnx_witness:
  "raised (main (usual_libraries\<lparr>model_save_pretrained := ([''config.json'', ''export.onnx''], None)\<rparr>)
     (Directory [''README.md''])) = None \<and>
   length (filter matches_onnx (write_files [''config.json'', ''export.onnx''] [''README.md''])) = 1 \<and>
   glob_onnx (fs (main (usual_libraries\<lparr>model_save_pretrained := ([''config.json'', ''export.onnx''], None)\<rparr>)
     (Directory [''README.md'']))) = [''model.onnx''] \<and>
   fs (main (usual_libraries\<lparr>model_save_pretrained := ([''config.json'', ''export.onnx''], None)\<rparr>)
     (Directory [''README.md''])) =
     Directory [''README.md'', ''config.json'', ''model.onnx'', ''tokenizer.json'', ''vocab.txt'']"
  using single_export_leaves_one_onnx
    [of "usual_libraries\<lparr>model_save_pretrained := ([''config.json'', ''export.onnx''], None)\<rparr>"
        "Directory [''README.md'']"]
  by (simp add: main_succeeds eval_defs)

theorem second_onnx_file_remains_counterexample:
  "raised (main (usual_libraries\<lparr>model_save_pretrained :=
       ([''config.json'', ''encoder.onnx'', ''decoder.onnx''], None)\<rparr>) Absent) = None \<and>
   glob_onnx (fs (main (usual_libraries\<lparr>model_save_pretrained :=
       ([''config.json'', ''encoder.onnx'', ''decoder.onnx''], None)\<rparr>) Absent)) =
     [''model.onnx'', ''decoder.onnx''] \<and>
   length (glob_onnx (fs (main (usual_libraries\<lparr>model_save_pretrained :=
       ([''config.json'', ''encoder.onnx'', ''decoder.onnx''], None)\<rparr>) Absent))) \<noteq> 1"
  by (simp add: main_succeeds eval_defs)

text \<open>
  C3. When the model export raises, the run ends with an exception, the entries of the
  output directory are the ones it had before the run (none, when the directory was
  created by this run), and no event of the model save, the rename step or the tokenizer
  save has occurred.
\<close>

theorem export_failure_writes_nothing:
  assumes "model_from_pretrained w = Some e"
  shows "raised (main w n) = Some (if n = RegularFile then FileExistsError else e) \<and>
         listing (fs (main w n)) = listing n \<and>
         (\<forall>ev\<in>set (events (main w n)). \<not> in_write_step ev)"
proof (cases "n = RegularFile")
  case True
  then show ?thesis by (simp add: main_not_dir events_def)
next
  case False
  with assms show ?thesis by (simp add: main_export_fails events_def)
qed

theorem export_failure_writes_nothing_witness:
  "model_from_pretrained (usual_libraries\<lparr>model_from_pretrained := Some (ExternalError ''unreachable'')\<rparr>)
     = Some (ExternalError ''unreachable'') \<and>
   raised (main (usual_libraries\<lparr>model_from_pretrained := Some (ExternalError ''unreachable'')\<rparr>) Absent)
     = Some (ExternalError ''unreachable'') \<and>
   listing (fs (main (usual_libraries\<lparr>model_from_pretrained := Some (ExternalError ''unreachable'')\<rparr>) Absent)) = [] \<and>
   fs (main (usual_libraries\<lparr>model_from_pretrained := Some (ExternalError ''unreachable'')\<rparr>) Absent) = Directory []"
  using export_failure_writes_nothing
    [of "usual_libraries\<lparr>model_from_pretrained := Some (ExternalError ''unreachable'')\<rparr>"
        "ExternalError ''unreachable''" Absent]
  by (simp add: main_export_fails)

text \<open>
  C4. In every run, whenever an event of the model save, the rename step or the
  tokenizer save occurs, \<^verbatim>\<open>models\<close> is a directory at that moment, and the directory
  creation has occurred earlier in the trace.
\<close>

theorem directory_exists_before_writes:
  assumes "i < length (trace (main w n))"
    and "in_write_step (fst (trace (main w n) ! i))"
  shows "is_dir (snd (trace (main w n) ! i)) \<and>
         (\<exists>j<i. fst (trace (main w n) ! j) = EvMkdir)"
proof -
  obtain rest where shape: "trace (main w n) = (EvPrint msg_downloading, n) # (EvMkdir, n) # rest"
    and dirs: "\<forall>p\<in>set rest. is_dir (snd p)"
    using main_trace_shape by blast
  have "i \<noteq> 0"
  proof
    assume "i = 0"
    with assms(2) shape show False by simp
  qed
  moreover have "i \<noteq> Suc 0"
  proof
    assume "i = Suc 0"
    with assms(2) shape show False by simp
  qed
  ultimately have "Suc 0 < i" by simp
  then obtain k where k: "i = Suc (Suc k)"
    by (cases i; cases "i - 1") auto
  with assms(1) shape have "k < length rest" by simp
  then have "rest ! k \<in> set rest" by simp
  with dirs k shape have "is_dir (snd (trace (main w n) ! i))" by simp
  moreover from shape k have "Suc 0 < i \<and> fst (trace (main w n) ! Suc 0) = EvMkdir" by simp
  ultimately show ?thesis by blast
qed

theorem directory_exists_before_writes_witness:
  "6 < length (trace (main usual_libraries Absent)) \<and>
   in_write_step (fst (trace (main usual_libraries Absent) ! 6)) \<and>
   is_dir (snd (trace (main usual_libraries Absent) ! 6)) \<and>
   fst (trace (main usual_libraries Absent) ! 1) = EvMkdir"
  using directory_exists_before_writes [of 6 usual_libraries Absent]
  by (simp add: usual_run)



text \<open>
  C6. The directory creation makes the directory when the path is free; on a directory
  that is there it keeps the entries and raises nothing; and creating twice gives what
  creating once gives.
\<close>

theorem mkdir_step_creates_or_keeps:
  "(fs r = Absent \<longrightarrow>
      fs (mkdir_step r) = Directory [] \<and> raised (mkdir_step r) = raised r) \<and>
   (fs r = Directory d \<longrightarrow>
      fs (mkdir_step r) = Directory d \<and> raised (mkdir_step r) = raised r) \<and>
   (fs r \<noteq> RegularFile \<longrightarrow>
      fs (mkdir_step (mkdir_step r)) = fs (mkdir_step r) \<and>
      raised (mkdir_step (mkdir_step r)) = raised r)"
  by (cases "fs r") (simp_all add: mkdir_step_def mkdir_def emit_def raise_def Let_def)

theorem mkdir_step_creates_or_keeps_witness:
  "fs (start Absent) = Absent \<and>
   fs (mkdir_step (start Absent)) = Directory [] \<and>
   raised (mkdir_step (start Absent)) = None \<and>
   fs (start (Directory [''old.txt''])) = Directory [''old.txt''] \<and>
   fs (mkdir_step (start (Directory [''old.txt'']))) = Directory [''old.txt''] \<and>
   raised (mkdir_step (start (Directory [''old.txt'']))) = None \<and>
   fs (start Absent) \<noteq> RegularFile \<and>
   fs (mkdir_step (mkdir_step (start Absent))) = fs (mkdir_step (start Absent)) \<and>
   raised (mkdir_step (mkdir_step (start Absent))) = None"
  using mkdir_step_creates_or_keeps [of "start Absent" "[]"]
    mkdir_step_creates_or_keeps [of "start (Directory [''old.txt''])" "[''old.txt'']"]
  by (simp add: start_def)

text \<open>
  C7. The steps a run goes through are an initial part of: create the directory, export
  the model, download the tokenizer, save the model, the rename step, save the tokenizer,
  print the completion messages; a run that raises nothing goes through all seven, in
  this order.
\<close>

theorem steps_in_fixed_order:
  "prefix (steps_of (main w n)) all_steps \<and>
   (raised (main w n) = None \<longrightarrow> steps_of (main w n) = all_steps)"
proof (cases rule: run_cases [where n = n and w = w])
  case not_dir
  then show ?thesis
    by (simp add: main_not_dir steps_of_events all_steps_def List.map_filter_simps)
next
  case (export_fails e)
  then show ?thesis
    by (simp add: main_export_fails steps_of_events all_steps_def List.map_filter_simps)
next
  case (download_fails e)
  then show ?thesis
    by (simp add: main_download_fails steps_of_events all_steps_def List.map_filter_simps)
next
  case (save_model_fails e)
  then show ?thesis
    by (simp add: main_save_model_fails steps_of_events all_steps_def List.map_filter_simps)
next
  case (save_tokenizer_fails e)
  let ?d = "Directory (write_files (fst (model_save_pretrained w)) (listing n))"
  from save_tokenizer_fails have
    "List.map_filter step_of (map fst (trace (main w n))) =
       [CreateDirectory, ExportModel, DownloadTokenizer] @ [SaveModel] @
       List.map_filter step_of (rename_events ?d) @ SaveTokenizer # []"
    by (simp add: main_save_tokenizer_fails map_filter_append List.map_filter_simps comp_def)
  then have "steps_of (main w n) =
      [CreateDirectory, ExportModel, DownloadTokenizer, SaveModel, RenameStep, SaveTokenizer]"
    by (simp only: steps_of_events remdups_adj_rename_steps [OF rename_events_steps]) simp
  with save_tokenizer_fails show ?thesis
    by (simp add: main_save_tokenizer_fails all_steps_def)
next
  case succeeds
  let ?d = "Directory (write_files (fst (model_save_pretrained w)) (listing n))"
  from succeeds have
    "List.map_filter step_of (map fst (trace (main w n))) =
       [CreateDirectory, ExportModel, DownloadTokenizer] @ [SaveModel] @
       List.map_filter step_of (rename_events ?d) @ SaveTokenizer # [Report, Report, Report, Report]"
    by (simp add: main_succeeds map_filter_append List.map_filter_simps comp_def
          completion_messages_step)
  then have "steps_of (main w n) = all_steps"
    by (simp only: steps_of_events remdups_adj_rename_steps [OF rename_events_steps])
       (simp add: all_steps_def)
  then show ?thesis by simp
qed

theorem steps_in_fixed_order_witness:
  "raised (main usual_libraries Absent) = None \<and>
   steps_of (main usual_libraries Absent) =
     [CreateDirectory, ExportModel, DownloadTokenizer, SaveModel, RenameStep, SaveTokenizer, Report]"
  using steps_in_fixed_order [of usual_libraries Absent]
  by (simp add: main_succeeds_iff all_steps_def)

text \<open>
  C8. When the directory can be created, the exception of the first library call that
  fails (export, tokenizer download, model save, tokenizer save) is the exception the run
  ends with, and the failing call is the last event of the run: nothing catches it and
  nothing runs after it. No library call occurs twice in a run.
\<close>

theorem library_failures_propagate:
  "(n \<noteq> RegularFile \<and> model_from_pretrained w = Some e \<longrightarrow>
      raised (main w n) = Some e \<and> last (events (main w n)) = EvExportModel) \<and>
   (n \<noteq> RegularFile \<and> model_from_pretrained w = None \<and>
    tokenizer_from_pretrained w = Some e \<longrightarrow>
      raised (main w n) = Some e \<and> last (events (main w n)) = EvDownloadTokenizer) \<and>
   (n \<noteq> RegularFile \<and> model_from_pretrained w = None \<and>
    tokenizer_from_pretrained w = None \<and> snd (model_save_pretrained w) = Some e \<longrightarrow>
      raised (main w n) = Some e \<and> last (events (main w n)) = EvSaveModel) \<and>
   (n \<noteq> RegularFile \<and> model_from_pretrained w = None \<and>
    tokenizer_from_pretrained w = None \<and> snd (model_save_pretrained w) = None \<and>
    snd (tokenizer_save_pretrained w) = Some e \<longrightarrow>
      raised (main w n) = Some e \<and> last (events (main w n)) = EvSaveTokenizer) \<and>
   (\<forall>c\<in>set library_calls. count_list (events (main w n)) c \<le> 1)"
proof (cases rule: run_cases [where n = n and w = w])
  case not_dir
  then show ?thesis
    by (simp add: main_not_dir events_def library_calls_def)
next
  case (export_fails e')
  then show ?thesis
    by (simp add: main_export_fails events_def library_calls_def)
next
  case (download_fails e')
  then show ?thesis
    by (simp add: main_download_fails events_def library_calls_def)
next
  case (save_model_fails e')
  then show ?thesis
    by (simp add: main_save_model_fails events_def library_calls_def)
next
  case (save_tokenizer_fails e')
  then have "\<forall>c\<in>set library_calls. count_list (events (main w n)) c \<le> 1"
    by (auto simp: main_save_tokenizer_fails events_def comp_def
          rename_events_no_library_call)
       (simp_all add: library_calls_def)
  with save_tokenizer_fails show ?thesis
    by (simp add: main_save_tokenizer_fails events_def comp_def)
next
  case succeeds
  then have "\<forall>c\<in>set library_calls. count_list (events (main w n)) c \<le> 1"
    by (auto simp: main_succeeds events_def comp_def completion_messages_def
          rename_events_no_library_call)
       (simp_all add: library_calls_def)
  with succeeds show ?thesis
    by simp
qed

theorem library_failures_propagate_witness:
  "raised (main (usual_libraries\<lparr>model_from_pretrained := Some (ExternalError ''offline'')\<rparr>) Absent)
     = Some (ExternalError ''offline'') \<and>
   last (events (main (usual_libraries\<lparr>model_from_pretrained := Some (ExternalError ''offline'')\<rparr>) Absent))
     = EvExportModel \<and>
   raised (main (usual_libraries\<lparr>tokenizer_from_pretrained := Some (ExternalError ''offline'')\<rparr>) Absent)
     = Some (ExternalError ''offline'') \<and>
   last (events (main (usual_libraries\<lparr>tokenizer_from_pretrained := Some (ExternalError ''offline'')\<rparr>) Absent))
     = EvDownloadTokenizer \<and>
   raised (main (usual_libraries\<lparr>model_save_pretrained :=
       ([''config.json''], Some (ExternalError ''disk full''))\<rparr>) Absent)
     = Some (ExternalError ''disk full'') \<and>
   last (events (main (usual_libraries\<lparr>model_save_pretrained :=
       ([''config.json''], Some (ExternalError ''disk full''))\<rparr>) Absent))
     = EvSaveModel \<and>
   raised (main (usual_libraries\<lparr>tokenizer_save_pretrained :=
       ([], Some (ExternalError ''disk full''))\<rparr>) Absent)
     = Some (ExternalError ''disk full'') \<and>
   last (events (main (usual_libraries\<lparr>tokenizer_save_pretrained :=
       ([], Some (ExternalError ''disk full''))\<rparr>) Absent))
     = EvSaveTokenizer \<and>
   count_list (events (main usual_libraries Absent)) EvSaveModel \<le> 1"
  using
    library_failures_propagate
      [of Absent "usual_libraries\<lparr>model_from_pretrained := Some (ExternalError ''offline'')\<rparr>"
          "ExternalError ''offline''"]
    library_failures_propagate
      [of Absent "usual_libraries\<lparr>tokenizer_from_pretrained := Some (ExternalError ''offline'')\<rparr>"
          "ExternalError ''offline''"]
    library_failures_propagate
      [of Absent "usual_libraries\<lparr>model_save_pretrained :=
          ([''config.json''], Some (ExternalError ''disk full''))\<rparr>" "ExternalError ''disk full''"]
    library_failures_propagate
      [of Absent "usual_libraries\<lparr>tokenizer_save_pretrained :=
          ([], Some (ExternalError ''disk full''))\<rparr>" "ExternalError ''disk full''"]
    library_failures_propagate [of Absent usual_libraries "ExternalError ''offline''"]
  by (simp add: library_calls_def)

text \<open>
  C9. A run that raises nothing prints the three progress messages and then the four
  completion messages, the second of which names \<^verbatim>\<open>models/model.onnx\<close>. This is so
  too when no entry ending in \<^verbatim>\<open>.onnx\<close> is in the directory after the model save:
  the run then raises nothing, prints the same messages, and \<^verbatim>\<open>model.onnx\<close> is not in
  the directory at the end.
\<close>

theorem success_reported_unchecked:
  "(raised (main w n) = None \<longrightarrow>
      stdout (main w n) = [msg_downloading, msg_converting, msg_tokenizer] @ completion_messages) \<and>
   (n \<noteq> RegularFile \<and> model_from_pretrained w = None \<and>
    tokenizer_from_pretrained w = None \<and> snd (model_save_pretrained w) = None \<and>
    snd (tokenizer_save_pretrained w) = None \<and>
    (\<forall>name\<in>set (listing n) \<union> set (fst (model_save_pretrained w)). \<not> matches_onnx name) \<and>
    ''model.onnx'' \<notin> set (fst (tokenizer_save_pretrained w)) \<longrightarrow>
      raised (main w n) = None \<and>
      \<not> path_exists (fs (main w n)) ''model.onnx'' \<and>
      stdout (main w n) = [msg_downloading, msg_converting, msg_tokenizer] @ completion_messages) \<and>
   completion_messages ! 1 = ''   Model: models/model.onnx''"
proof -
  have printed: "stdout (main w n) = [msg_downloading, msg_converting, msg_tokenizer] @ completion_messages"
    if "raised (main w n) = None"
  proof -
    from that have ok: "n \<noteq> RegularFile" "model_from_pretrained w = None"
      "tokenizer_from_pretrained w = None" "snd (model_save_pretrained w) = None"
      "snd (tokenizer_save_pretrained w) = None"
      by (simp_all add: main_succeeds_iff)
    show ?thesis
      by (simp add: main_succeeds [OF ok] stdout_def events_def comp_def map_filter_append
            List.map_filter_simps completion_messages_def)
  qed
  have missing: "\<not> path_exists (fs (main w n)) ''model.onnx''"
    if ok: "n \<noteq> RegularFile" "model_from_pretrained w = None"
      "tokenizer_from_pretrained w = None" "snd (model_save_pretrained w) = None"
      "snd (tokenizer_save_pretrained w) = None"
    and none: "\<forall>name\<in>set (listing n) \<union> set (fst (model_save_pretrained w)). \<not> matches_onnx name"
    and tok: "''model.onnx'' \<notin> set (fst (tokenizer_save_pretrained w))"
  proof -
    let ?saved = "write_files (fst (model_save_pretrained w)) (listing n)"
    from none have nomatch: "\<forall>name\<in>set ?saved. \<not> matches_onnx name" by auto
    then have "filter matches_onnx ?saved = []" by (simp add: filter_empty_conv)
    then have same: "renamed_listing ?saved = ?saved" by (rule renamed_listing_no_match)
    have "''model.onnx'' \<notin> set ?saved"
    proof
      assume "''model.onnx'' \<in> set ?saved"
      with nomatch have "\<not> matches_onnx ''model.onnx''" by blast
      then show False by simp
    qed
    with tok same show ?thesis
      by (simp add: main_succeeds [OF ok] path_exists_def)
  qed
  have path: "completion_messages ! 1 = ''   Model: models/model.onnx''"
    by (simp add: completion_messages_def msg_model_path_def path_join_def OUTPUT_DIR_def)
  from printed missing path show ?thesis
    by (simp add: main_succeeds_iff)
qed

theorem success_reported_unchecked_witness:
  "raised (main (usual_libraries\<lparr>model_save_pretrained := ([''config.json''], None)\<rparr>) Absent) = None \<and>
   \<not> path_exists (fs (main (usual_libraries\<lparr>model_save_pretrained := ([''config.json''], None)\<rparr>) Absent))
       ''model.onnx'' \<and>
   glob_onnx (fs (main (usual_libraries\<lparr>model_save_pretrained := ([''config.json''], None)\<rparr>) Absent)) = [] \<and>
   stdout (main (usual_libraries\<lparr>model_save_pretrained := ([''config.json''], None)\<rparr>) Absent) =
     [msg_downloading, msg_converting, msg_tokenizer,
      msg_success, ''   Model: models/model.onnx'', msg_tokenizer_path, msg_cargo]"
  using success_reported_unchecked
    [of "usual_libraries\<lparr>model_save_pretrained := ([''config.json''], None)\<rparr>" Absent]
  by (simp add: matches_onnx_def main_succeeds eval_defs msg_model_path_def path_join_def
        OUTPUT_DIR_def)

text \<open>
  C10. When \<^verbatim>\<open>models\<close> is a regular file, the directory creation raises
  \<^verbatim>\<open>FileExistsError\<close> and the run ends there: after the first message and the
  \<^verbatim>\<open>mkdir\<close> call nothing is downloaded and nothing is written, and the file is as it
  was.
\<close>

theorem main_stops_at_regular_file:
  "main w RegularFile =
     \<lparr>fs = RegularFile,
      trace = [(EvPrint msg_downloading, RegularFile), (EvMkdir, RegularFile)],
      raised = Some FileExistsError\<rparr>"
  by (rule main_not_dir)

end
